theory Spec2Isabelle
  imports Complex_Main "HOL-Library.AList"
begin

section \<open>Shared data: boxes, images, text\<close>

text \<open>
  A bounding box is the Python tuple \<open>(xmin, ymin, xmax, ymax)\<close> of unbounded integers,
  in raster pixel space.
\<close>

type_synonym box = "int \<times> int \<times> int \<times> int"

text \<open>
  A raster as the image library hands it out: its size, and a pixel value at every
  coordinate (\<open>0\<close> outside the raster).
\<close>

record image =
  width :: int
  height :: int
  pixel :: "int \<Rightarrow> int \<Rightarrow> nat"

text \<open>Python's \<open>str\<close> of a non-negative and of an arbitrary integer.\<close>

definition digit_char :: "nat \<Rightarrow> char" where
  "digit_char d = ''0123456789'' ! d"

function str_nat :: "nat \<Rightarrow> string" where
  "str_nat n = (if n < 10 then [digit_char n] else str_nat (n div 10) @ [digit_char (n mod 10)])"
  by pat_completeness auto
termination
  by (relation "measure (\<lambda>n. n)") auto

declare str_nat.simps [simp del]

definition str_int :: "int \<Rightarrow> string" where
  "str_int i = (if i < 0 then CHR ''-'' # str_nat (nat (- i)) else str_nat (nat i))"

text \<open>\<open>os.path.join\<close> of a directory and one file name, on a POSIX host.\<close>

definition path_join :: "string \<Rightarrow> string \<Rightarrow> string" where
  "path_join a b =
     (if b \<noteq> [] \<and> hd b = CHR ''/'' then b
      else if a = [] \<or> last a = CHR ''/'' then a @ b
      else a @ ''/'' @ b)"

section \<open>Crop executor (export\_uv\_infoV1.py, \<open>crop_task\<close>)\<close>

text \<open>
  What a path holds on disk: an image the library can open, or something it cannot
  (\<open>Image.open\<close> raises). A path with no file is absent from the map.
\<close>

datatype disk_file = ImageFile image | NotAnImage

type_synonym disk = "string \<rightharpoonup> disk_file"

text \<open>
  \<open>crop_task\<close> answers \<open>None\<close> on each of its three failure paths; the model keeps
  apart which path was taken.
\<close>

datatype crop_error = MissingSourceFile | DegenerateRegion | CropException

text \<open>The clamping assignments of \<open>crop_task\<close> (lines 155 to 158).\<close>

definition clamp_box :: "int \<Rightarrow> int \<Rightarrow> box \<Rightarrow> box" where
  "clamp_box w h bounds =
     (case bounds of (x0, y0, x1, y1) \<Rightarrow>
        let x0' = max 0 (min x0 (w - 1));
            y0' = max 0 (min y0 (h - 1));
            x1' = max (x0' + 1) (min x1 w);
            y1' = max (y0' + 1) (min y1 h)
        in (x0', y0', x1', y1'))"

text \<open>
  The image library's \<open>crop\<close>: a new raster of the box's size holding the source's
  pixels of that rectangle.
\<close>

definition pil_crop :: "image \<Rightarrow> box \<Rightarrow> image" where
  "pil_crop im b =
     (case b of (x0, y0, x1, y1) \<Rightarrow>
        \<lparr>width = x1 - x0, height = y1 - y0,
         pixel = (\<lambda>x y. if 0 \<le> x \<and> x < x1 - x0 \<and> 0 \<le> y \<and> y < y1 - y0
                          then pixel im (x0 + x) (y0 + y) else 0)\<rparr>)"

type_synonym crop_args = "string \<times> string \<times> nat \<times> box"
type_synonym crop_ok = "string \<times> nat \<times> string \<times> box"

text \<open>
  \<open>crop_task\<close>: \<open>directory\<close> is the operator's output directory, \<open>writable\<close> tells
  whether \<open>save\<close> succeeds at a path (it raises otherwise, and the bare \<open>except\<close>
  answers \<open>None\<close>). The result comes with the disk after the call.
\<close>

definition crop_task ::
  "string \<Rightarrow> (string \<Rightarrow> bool) \<Rightarrow> disk \<Rightarrow> crop_args \<Rightarrow> (crop_error + crop_ok) \<times> disk" where
  "crop_task directory writable d args =
     (case args of (name, src_path, vid, bounds) \<Rightarrow>
        (case d src_path of
           None \<Rightarrow> (Inl MissingSourceFile, d)
         | Some NotAnImage \<Rightarrow> (Inl CropException, d)
         | Some (ImageFile im) \<Rightarrow>
             (case clamp_box (width im) (height im) bounds of (x0, y0, x1, y1) \<Rightarrow>
                if x1 \<le> x0 \<or> y1 \<le> y0 then (Inl DegenerateRegion, d)
                else
                  let cropped = pil_crop im (x0, y0, x1, y1);
                      filename = name @ ''_variant'' @ str_nat vid @ ''.png'';
                      out_path = path_join directory filename
                  in if writable out_path
                     then (Inr (name, vid, out_path, (x0, y0, x1, y1)),
                           d(out_path \<mapsto> ImageFile cropped))
                     else (Inl CropException, d))))"

text \<open>An 8 by 8 source raster, used in the examples below.\<close>

definition img8 :: image where
  "img8 = \<lparr>width = 8, height = 8, pixel = (\<lambda>x y. 0)\<rparr>"

definition disk8 :: disk where
  "disk8 = [''tex.png'' \<mapsto> ImageFile img8]"

section \<open>The host's mesh, materials and images\<close>

text \<open>
  A UV coordinate is a pair of floats; the model computes with exact rationals, which
  agrees with the floats wherever the products and differences taken are representable
  (as they are in every example below).
\<close>

type_synonym uv = "rat \<times> rat"

text \<open>An image datablock: its name, its file path and its \<open>size\<close>, width then height.\<close>

record bl_image =
  img_name :: string
  img_filepath :: string
  img_size :: "int \<times> int"

record node =
  node_type :: string
  node_image :: "bl_image option"

record material =
  mat_name :: string
  use_nodes :: bool
  nodes :: "node list"

text \<open>
  A face of the edit mesh: its index in \<open>bm.faces\<close>, its material slot, the UV of each
  of its loops in loop order, and the identifiers of its edges.
\<close>

record face =
  index :: nat
  material_index :: nat
  loops :: "uv list"
  edges :: "nat list"

text \<open>
  \<open>get_image_from_face\<close> (both operators): for each loop of the face, look at the
  face's material slot and answer the image of the first image-texture node that has
  one. Material slots are taken to be filled.
\<close>

fun first_tex_image :: "node list \<Rightarrow> bl_image option" where
  "first_tex_image [] = None"
| "first_tex_image (n # ns) =
     (if node_type n = ''TEX_IMAGE'' \<and> node_image n \<noteq> None then node_image n
      else first_tex_image ns)"

fun image_from_loops :: "material list \<Rightarrow> nat \<Rightarrow> uv list \<Rightarrow> bl_image option" where
  "image_from_loops mats mat_index [] = None"
| "image_from_loops mats mat_index (l # ls) =
     (if mat_index < length mats \<and> use_nodes (mats ! mat_index)
      then (case first_tex_image (nodes (mats ! mat_index)) of
              Some im \<Rightarrow> Some im
            | None \<Rightarrow> image_from_loops mats mat_index ls)
      else image_from_loops mats mat_index ls)"

definition get_image_from_face :: "material list \<Rightarrow> face \<Rightarrow> bl_image option" where
  "get_image_from_face mats f = image_from_loops mats (material_index f) (loops f)"

section \<open>Coordinate conversion\<close>

text \<open>Python's \<open>int\<close> of a float: truncation toward zero.\<close>

definition py_int :: "rat \<Rightarrow> int" where
  "py_int x = (if 0 \<le> x then \<lfloor>x\<rfloor> else \<lceil>x\<rceil>)"

text \<open>Python's \<open>min\<close> and \<open>max\<close> of a non-empty sequence.\<close>

definition py_min :: "rat list \<Rightarrow> rat" where
  "py_min xs = fold min (tl xs) (hd xs)"

definition py_max :: "rat list \<Rightarrow> rat" where
  "py_max xs = fold max (tl xs) (hd xs)"

text \<open>
  The pixel points of a face: each loop's UV times the image size
  (\<open>uvs_px\<close> in export\_uv\_infoV1.py, \<open>uvs\<close> in export\_uv\_info.py).
\<close>

definition uvs_px :: "int \<Rightarrow> int \<Rightarrow> uv list \<Rightarrow> (rat \<times> rat) list" where
  "uvs_px w h ls = map (\<lambda>(x, y). (x * of_int w, y * of_int h)) ls"


text \<open>
  export\_uv\_info.py, lines 63 to 68 and \<open>convert_coords\<close>: the vertical axis is
  flipped on the floats, then the four coordinates are truncated.
\<close>

definition convert_coords :: "rat \<times> rat \<times> rat \<times> rat \<Rightarrow> int \<Rightarrow> rat \<times> rat \<times> rat \<times> rat" where
  "convert_coords coords h =
     (case coords of (xmin, ymin, xmax, ymax) \<Rightarrow>
        (xmin, of_int h - ymax, xmax, of_int h - ymin))"

definition bounds_v0 :: "int \<Rightarrow> (rat \<times> rat) list \<Rightarrow> box option" where
  "bounds_v0 h uvs =
     (if uvs = [] then None
      else
        let xs = map fst uvs; ys = map snd uvs;
            xmin = py_min xs; xmax = py_max xs;
            ymin = py_min ys; ymax = py_max ys
        in (case convert_coords (xmin, ymin, xmax, ymax) h of (a, b, c, d) \<Rightarrow>
              Some (py_int a, py_int b, py_int c, py_int d)))"

section \<open>Dictionaries, lists and text as Python has them\<close>

datatype py_error = ValueError | KeyError | IndexError | StopIteration | RuntimeError

text \<open>
  A \<open>dict\<close> keeps its keys in insertion order, and the export iterates over several of
  them, so a dictionary is an association list: \<open>map_of\<close> reads it, \<open>AList.update\<close> is
  the assignment \<open>d[k] = v\<close> (in place for a key already there, at the end otherwise).
\<close>

definition setdefault :: "('k \<times> 'v) list \<Rightarrow> 'k \<Rightarrow> 'v \<Rightarrow> ('k \<times> 'v) list" where
  "setdefault d k v = (if map_of d k = None then d @ [(k, v)] else d)"

text \<open>The list stored under a key, empty when the key is absent (\<open>d.get(k, [])\<close>).\<close>

definition get_list :: "('k \<times> 'v list) list \<Rightarrow> 'k \<Rightarrow> 'v list" where
  "get_list d k = (case map_of d k of None \<Rightarrow> [] | Some l \<Rightarrow> l)"

text \<open>\<open>d.setdefault(k, []).append(v)\<close>.\<close>

definition setdefault_append :: "('k \<times> 'v list) list \<Rightarrow> 'k \<Rightarrow> 'v \<Rightarrow> ('k \<times> 'v list) list" where
  "setdefault_append d k v = AList.update k (get_list d k @ [v]) d"

text \<open>\<open>list.index\<close>: the first position of a value, \<open>None\<close> where Python raises.\<close>

fun list_index :: "'a list \<Rightarrow> 'a \<Rightarrow> nat option" where
  "list_index [] x = None"
| "list_index (y # ys) x = (if y = x then Some 0 else map_option Suc (list_index ys x))"

text \<open>\<open>sep.join(lines)\<close>.\<close>

fun join :: "string \<Rightarrow> string list \<Rightarrow> string" where
  "join sep [] = []"
| "join sep [l] = l"
| "join sep (l # m # ls) = l @ sep @ join sep (m # ls)"

definition dq :: string where
  "dq = [CHR 0x22]"

definition sq :: string where
  "sq = [CHR 0x27]"

definition newline :: string where
  "newline = [CHR 0x0A]"

text \<open>\<open>str\<close> of a tuple of four integers.\<close>

definition str_box :: "box \<Rightarrow> string" where
  "str_box b =
     (case b of (x0, y0, x1, y1) \<Rightarrow>
        ''('' @ str_int x0 @ '', '' @ str_int y0 @ '', '' @ str_int x1 @ '', '' @ str_int y1 @ '')'')"

text \<open>\<open>bpy.path.basename\<close>: the blend-relative prefix is dropped, then the last component taken.\<close>

definition basename :: "string \<Rightarrow> string" where
  "basename p =
     (let q = (if take 2 p = ''//'' then drop 2 p else p)
      in rev (takeWhile (\<lambda>c. c \<noteq> CHR ''/'') (rev q)))"

section \<open>Variant deduplication\<close>

text \<open>
  export\_uv\_info.py, lines 70 to 72: \<open>unique\<close> maps an image name to its list of distinct
  boxes. The answer is the table after the call and the variant index; \<open>index\<close> cannot
  raise here, and the model keeps its failure as \<open>None\<close>.
\<close>

definition dedup ::
  "(string \<times> box list) list \<Rightarrow> string \<Rightarrow> box \<Rightarrow> (string \<times> box list) list \<times> nat option" where
  "dedup unique name bounds =
     (let unique1 = setdefault unique name [];
          unique2 = (if bounds \<notin> set (get_list unique1 name)
                     then AList.update name (get_list unique1 name @ [bounds]) unique1
                     else unique1)
      in (unique2, map_option (\<lambda>i. i + 1) (list_index (get_list unique2 name) bounds)))"

text \<open>
  export\_uv\_infoV1.py, lines 128 to 133, for the list of one image: \<open>unique\<close> grows by
  the boxes not yet in \<open>seen\<close>, each with its position as variant id.
\<close>

fun dedup_loop ::
  "(box \<times> string \<times> nat option) list \<Rightarrow> (box \<times> string \<times> nat) list \<Rightarrow> (box \<rightharpoonup> nat) \<Rightarrow>
     (box \<times> string \<times> nat) list" where
  "dedup_loop [] unique seen = unique"
| "dedup_loop ((bounds, path, _) # lst) unique seen =
     (if seen bounds = None
      then dedup_loop lst (unique @ [(bounds, path, length unique + 1)])
             (seen(bounds \<mapsto> length unique + 1))
      else dedup_loop lst unique seen)"


section \<open>export\_uv\_info.py: gathering and the four listings\<close>

record export_state =
  coord_data :: "string list"
  name_data :: "string list"
  crop_data :: "string list"
  unique :: "(string \<times> box list) list"
  dimensions :: "(string \<times> int \<times> int) list"
  count :: "(string \<times> nat) list"
  bounds_per_image :: "(string \<times> (box \<times> string \<times> nat) list) list"
  face_assignments :: "(nat \<times> string \<times> nat \<times> box) list"

definition init_state :: export_state where
  "init_state = \<lparr>coord_data = [], name_data = [], crop_data = [], unique = [],
     dimensions = [], count = [], bounds_per_image = [], face_assignments = []\<rparr>"

definition name_line :: "string \<Rightarrow> nat \<Rightarrow> string" where
  "name_line name variant = dq @ name @ ''_variant'' @ str_nat variant @ dq @ '',''"

definition crop_line :: "string \<Rightarrow> string" where
  "crop_line name = dq @ name @ dq @ '',''"

definition coord_line_v0 :: "box \<Rightarrow> string \<Rightarrow> nat \<Rightarrow> string" where
  "coord_line_v0 bounds name variant =
     str_box bounds @ '',    # coords for '' @ sq @ name @ ''_variant'' @ str_nat variant @ sq"

definition size_line :: "string \<Rightarrow> int \<Rightarrow> int \<Rightarrow> string" where
  "size_line name w h =
     ''('' @ dq @ name @ dq @ '', '' @ str_int w @ '', '' @ str_int h @ ''),'' @ newline"

text \<open>
  The body of the face loop, lines 57 to 82. \<open>abspath\<close> is the host's
  \<open>bpy.path.abspath\<close>.
\<close>

definition export_face ::
  "(string \<Rightarrow> string) \<Rightarrow> material list \<Rightarrow> face \<Rightarrow> export_state \<Rightarrow> py_error + export_state" where
  "export_face abspath mats f st =
     (case get_image_from_face mats f of
        None \<Rightarrow> Inr st
      | Some img \<Rightarrow>
          (let name = basename (img_filepath img);
               path = abspath (img_filepath img);
               w = fst (img_size img); h = snd (img_size img)
           in case bounds_v0 h (uvs_px w h (loops f)) of
                None \<Rightarrow> Inl ValueError
              | Some bounds \<Rightarrow>
                  (case dedup (unique st) name bounds of
                     (unique', None) \<Rightarrow> Inl ValueError
                   | (unique', Some variant) \<Rightarrow>
                       Inr (st\<lparr>
                         unique := unique',
                         name_data := name_data st @ [name_line name variant],
                         crop_data := crop_data st @ [crop_line name],
                         coord_data := coord_data st @ [coord_line_v0 bounds name variant],
                         dimensions := setdefault (dimensions st) name (w, h),
                         count := AList.update name
                           ((case map_of (count st) name of None \<Rightarrow> 0 | Some c \<Rightarrow> c) + 1)
                           (count st),
                         bounds_per_image :=
                           setdefault_append (bounds_per_image st) name (bounds, path, variant),
                         face_assignments :=
                           face_assignments st @ [(index f, name, variant, bounds)]\<rparr>))))"

fun export_faces ::
  "(string \<Rightarrow> string) \<Rightarrow> material list \<Rightarrow> face list \<Rightarrow> export_state \<Rightarrow> py_error + export_state" where
  "export_faces abspath mats [] st = Inr st"
| "export_faces abspath mats (f # fs) st =
     (case export_face abspath mats f st of
        Inl e \<Rightarrow> Inl e
      | Inr st' \<Rightarrow> export_faces abspath mats fs st')"

text \<open>Lines 87 to 90: each image's size line, once per count of that image.\<close>

fun size_lines :: "(string \<times> int \<times> int) list \<Rightarrow> (string \<times> nat) list \<Rightarrow> py_error + string" where
  "size_lines [] cnt = Inr []"
| "size_lines ((name, (w, h)) # ds) cnt =
     (case map_of cnt name of
        None \<Rightarrow> Inl KeyError
      | Some c \<Rightarrow>
          (case size_lines ds cnt of
             Inl e \<Rightarrow> Inl e
           | Inr rest \<Rightarrow> Inr (concat (replicate c (size_line name w h)) @ rest)))"

text \<open>Lines 84 to 90: the four text files, as a map from path to content.\<close>

definition write_listings_v0 :: "string \<Rightarrow> export_state \<Rightarrow> py_error + (string \<rightharpoonup> string)" where
  "write_listings_v0 base st =
     (case size_lines (dimensions st) (count st) of
        Inl e \<Rightarrow> Inl e
      | Inr sizes \<Rightarrow>
          Inr [path_join base ''uv_coordinates.txt'' \<mapsto> join newline (coord_data st),
               path_join base ''image_names.txt'' \<mapsto> join newline (name_data st),
               path_join base ''image_names_to_crop.txt'' \<mapsto> join newline (crop_data st),
               path_join base ''image_sizes.txt'' \<mapsto> sizes])"

section \<open>export\_uv\_infoV1.py: gathering\<close>

datatype level = INFO | WARNING | ERROR









section \<open>export\_uv\_infoV1.py: the metadata files\<close>

definition coord_line_V1 :: "box \<Rightarrow> string \<Rightarrow> nat \<Rightarrow> string" where
  "coord_line_V1 bounds name vid =
     str_box bounds @ '',    # '' @ sq @ name @ ''_variant'' @ str_nat vid @ sq"

text \<open>Lines 258 to 263: the three lists grow together, one entry per variant.\<close>

type_synonym listings = "string list \<times> string list \<times> string list"

fun metadata_variants :: "string \<Rightarrow> (box \<times> string \<times> nat) list \<Rightarrow> listings \<Rightarrow> listings" where
  "metadata_variants name [] acc = acc"
| "metadata_variants name ((bounds, _, vid) # variants) (coords_lines, names_lines, crops_lines) =
     metadata_variants name variants
       (coords_lines @ [coord_line_V1 bounds name vid],
        names_lines @ [name_line name vid],
        crops_lines @ [crop_line name])"

fun metadata_lines :: "(string \<times> (box \<times> string \<times> nat) list) list \<Rightarrow> listings \<Rightarrow> listings" where
  "metadata_lines [] acc = acc"
| "metadata_lines ((name, variants) # rest) acc =
     metadata_lines rest (metadata_variants name variants acc)"

text \<open>Lines 270 to 272: one line for each item of \<open>global_sizes\<close>.\<close>

fun sizes_V1 :: "(string \<times> int \<times> int) list \<Rightarrow> string" where
  "sizes_V1 [] = []"
| "sizes_V1 ((name, (w, h)) # rest) = size_line name w h @ sizes_V1 rest"

text \<open>Lines 258 to 272: the four text files, as a map from path to content.\<close>

definition write_listings_V1 ::
  "string \<Rightarrow> (string \<times> (box \<times> string \<times> nat) list) list \<Rightarrow> (string \<times> int \<times> int) list \<Rightarrow>
     (string \<rightharpoonup> string)" where
  "write_listings_V1 directory variants sizes =
     (case metadata_lines variants ([], [], []) of
        (coords_lines, names_lines, crops_lines) \<Rightarrow>
          [path_join directory ''uv_coordinates.txt'' \<mapsto> join newline coords_lines,
           path_join directory ''image_names.txt'' \<mapsto> join newline names_lines,
           path_join directory ''image_names_to_crop.txt'' \<mapsto> join newline crops_lines,
           path_join directory ''image_sizes.txt'' \<mapsto> sizes_V1 sizes])"

text \<open>
  The units the listings describe. In export\_uv\_infoV1.py a unit is a variant of an
  image, taken image by image; in export\_uv\_info.py it is a face assignment.
\<close>

definition units_V1 :: "(string \<times> (box \<times> string \<times> nat) list) list \<Rightarrow> (string \<times> box \<times> nat) list" where
  "units_V1 variants =
     concat (map (\<lambda>(name, vs). map (\<lambda>(bounds, path, vid). (name, bounds, vid)) vs) variants)"


text \<open>The same for export\_uv\_info.py: what each listing says of a face assignment.\<close>

definition aligned_v0 :: "export_state \<Rightarrow> bool" where
  "aligned_v0 st \<longleftrightarrow>
     coord_data st =
       map (\<lambda>(i, name, variant, bounds). coord_line_v0 bounds name variant) (face_assignments st) \<and>
     name_data st = map (\<lambda>(i, name, variant, bounds). name_line name variant) (face_assignments st) \<and>
     crop_data st = map (\<lambda>(i, name, variant, bounds). crop_line name) (face_assignments st)"

text \<open>How many of the face assignments are of a given image.\<close>

definition faces_of_image :: "export_state \<Rightarrow> string \<Rightarrow> nat" where
  "faces_of_image st name = length (filter (\<lambda>(i, n, variant, bounds). n = name) (face_assignments st))"

text \<open>
  What the loop of export\_uv\_info.py keeps true of \<open>count\<close> and \<open>dimensions\<close>: an image is
  counted once per face assignment, and has its dimensions as soon as it is counted.
\<close>

definition counted_v0 :: "export_state \<Rightarrow> bool" where
  "counted_v0 st \<longleftrightarrow>
     (\<forall>name. (case map_of (count st) name of None \<Rightarrow> 0 | Some c \<Rightarrow> c) = faces_of_image st name) \<and>
     (\<forall>name. (map_of (dimensions st) name = None) = (map_of (count st) name = None)) \<and>
     distinct (map fst (dimensions st))"


section \<open>A small scene\<close>











section \<open>ProcessMultipleOperator\<close>
















section \<open>Remapping the faces to the cropped images\<close>



















section \<open>Properties of the crop executor\<close>

lemma str_nat_digit: "n < 10 \<Longrightarrow> str_nat n = [digit_char n]"
  by (subst str_nat.simps) simp

lemma clamp_box_bounds:
  assumes "clamp_box w h (x0, y0, x1, y1) = (a, b, c, d)"
  shows "a = max 0 (min x0 (w - 1))" and "b = max 0 (min y0 (h - 1))"
    and "c = max (a + 1) (min x1 w)" and "d = max (b + 1) (min y1 h)"
  using assms by (auto simp: clamp_box_def Let_def)

lemma clamp_box_positive:
  assumes "clamp_box w h bounds = (a, b, c, d)"
  shows "a < c \<and> b < d"
proof -
  obtain x0 y0 x1 y1 where "bounds = (x0, y0, x1, y1)"
    by (cases bounds) auto
  with assms have "c = max (a + 1) (min x1 w)" "d = max (b + 1) (min y1 h)"
    by (simp_all add: clamp_box_bounds)
  then show ?thesis by linarith
qed

lemma crop_task_success:
  assumes "d0 src = Some (ImageFile im)"
    and "clamp_box (width im) (height im) bounds = (a, b, c, d)"
    and "out = path_join dir (name @ ''_variant'' @ str_nat vid @ ''.png'')"
    and "wr out"
  shows "crop_task dir wr d0 (name, src, vid, bounds) =
           (Inr (name, vid, out, (a, b, c, d)),
            d0(out \<mapsto> ImageFile (pil_crop im (a, b, c, d))))"
proof -
  have "a < c \<and> b < d"
    using assms(2) by (rule clamp_box_positive)
  then show ?thesis
    using assms by (simp add: crop_task_def Let_def)
qed

lemma pil_crop_size:
  "width (pil_crop im (a, b, c, d)) = c - a \<and> height (pil_crop im (a, b, c, d)) = d - b"
  by (simp add: pil_crop_def)

text \<open>
  C3. For an image of width \<open>w \<ge> 1\<close> and height \<open>h \<ge> 1\<close> and any integer box, the
  clamped box has \<open>xmin\<close> and \<open>ymin\<close> floored to 0, \<open>xmax\<close> capped at \<open>w\<close> and \<open>ymax\<close>
  at \<open>h\<close>, and \<open>xmax \<ge> xmin + 1\<close>, \<open>ymax \<ge> ymin + 1\<close> (each coordinate is written out in
  full); the box \<open>(-5, -5, 10, 10)\<close> against an 8 by 8 image is clamped to \<open>(0, 0, 8, 8)\<close>;
  and a crop whose source opens and whose output can be saved succeeds, reports the
  clamped box and writes a new image whose width and height are the clamped box's
  \<open>xmax - xmin\<close> and \<open>ymax - ymin\<close>.
\<close>

theorem crop_clamps_box:
  assumes "1 \<le> w" and "1 \<le> h"
    and "clamp_box w h (xmin, ymin, xmax, ymax) = (a, b, c, d)"
    and "d0 src = Some (ImageFile im)" and "width im = w" and "height im = h"
    and "out = path_join dir (name @ ''_variant'' @ str_nat vid @ ''.png'')"
    and "wr out"
  shows "(0 \<le> a \<and> 0 \<le> b \<and> c \<le> w \<and> d \<le> h \<and> a + 1 \<le> c \<and> b + 1 \<le> d) \<and>
     a = (if xmin < 0 then 0 else if w - 1 < xmin then w - 1 else xmin) \<and>
     b = (if ymin < 0 then 0 else if h - 1 < ymin then h - 1 else ymin) \<and>
     c = (if w < xmax then w else if xmax < a + 1 then a + 1 else xmax) \<and>
     d = (if h < ymax then h else if ymax < b + 1 then b + 1 else ymax) \<and>
     clamp_box 8 8 (-5, -5, 10, 10) = (0, 0, 8, 8) \<and>
     (\<exists>new. crop_task dir wr d0 (name, src, vid, (xmin, ymin, xmax, ymax)) =
               (Inr (name, vid, out, (a, b, c, d)), d0(out \<mapsto> ImageFile new)) \<and>
            width new = c - a \<and> height new = d - b)"
proof -
  note cb = clamp_box_bounds [OF assms(3)]
  have 1: "0 \<le> a \<and> 0 \<le> b \<and> c \<le> w \<and> d \<le> h \<and> a + 1 \<le> c \<and> b + 1 \<le> d"
    using assms(1,2) cb by linarith
  have 2: "a = (if xmin < 0 then 0 else if w - 1 < xmin then w - 1 else xmin)"
    using assms(1) cb(1) by (simp add: max_def min_def)
  have 3: "b = (if ymin < 0 then 0 else if h - 1 < ymin then h - 1 else ymin)"
    using assms(2) cb(2) by (simp add: max_def min_def)
  have 4: "c = (if w < xmax then w else if xmax < a + 1 then a + 1 else xmax)"
    using assms(1) cb(1,3) by (simp add: max_def min_def)
  have 5: "d = (if h < ymax then h else if ymax < b + 1 then b + 1 else ymax)"
    using assms(2) cb(2,4) by (simp add: max_def min_def)
  have 6: "clamp_box 8 8 (-5, -5, 10, 10) = (0, 0, 8, 8)"
    by (simp add: clamp_box_def)
  have "clamp_box (width im) (height im) (xmin, ymin, xmax, ymax) = (a, b, c, d)"
    using assms(3,5,6) by simp
  with assms(4) have "crop_task dir wr d0 (name, src, vid, (xmin, ymin, xmax, ymax)) =
      (Inr (name, vid, out, (a, b, c, d)), d0(out \<mapsto> ImageFile (pil_crop im (a, b, c, d))))"
    using assms(7,8) by (rule crop_task_success)
  then have 7: "\<exists>new. crop_task dir wr d0 (name, src, vid, (xmin, ymin, xmax, ymax)) =
               (Inr (name, vid, out, (a, b, c, d)), d0(out \<mapsto> ImageFile new)) \<and>
            width new = c - a \<and> height new = d - b"
    using pil_crop_size by blast
  from 1 2 3 4 5 6 7 show ?thesis by blast
qed

theorem crop_clamps_box_witness:
  "clamp_box 8 8 (-5, -5, 10, 10) = (0, 0, 8, 8) \<and>
   (\<exists>new. crop_task ''out'' (\<lambda>p. True) disk8 (''tex'', ''tex.png'', 1, (-5, -5, 10, 10)) =
       (Inr (''tex'', 1, ''out/tex_variant1.png'', (0, 0, 8, 8)),
        disk8(''out/tex_variant1.png'' \<mapsto> ImageFile new)) \<and>
      width new = 8 \<and> height new = 8)"
proof -
  have c: "clamp_box 8 8 (-5, -5, 10, 10) = (0, 0, 8, 8)"
    by (simp add: clamp_box_def)
  have o: "''out/tex_variant1.png'' = path_join ''out'' (''tex'' @ ''_variant'' @ str_nat 1 @ ''.png'')"
    by (simp add: path_join_def str_nat_digit digit_char_def)
  have d: "disk8 ''tex.png'' = Some (ImageFile img8)"
    by (simp add: disk8_def)
  have s: "width img8 = 8" "height img8 = 8"
    by (simp_all add: img8_def)
  from crop_clamps_box [of 8 8 "-5" "-5" 10 10 0 0 8 8 disk8 "''tex.png''" img8
      "''out/tex_variant1.png''" "''out''" "''tex''" 1 "\<lambda>p. True", OF _ _ c d s o]
  show ?thesis by simp
qed

text \<open>
  C2 as stated fails: the box \<open>(100, 100, 110, 110)\<close>, entirely outside an 8 by 8
  image, is not rejected; it is clamped to \<open>(7, 7, 8, 8)\<close> and cropped.
\<close>

theorem crop_outside_counterexample:
  "fst (crop_task ''out'' (\<lambda>p. True) disk8 (''tex'', ''tex.png'', 1, (100, 100, 110, 110))) =
     Inr (''tex'', 1, ''out/tex_variant1.png'', (7, 7, 8, 8))"
  by (simp add: crop_task_def clamp_box_def disk8_def img8_def Let_def path_join_def
      str_nat_digit digit_char_def)

text \<open>
  C2, amended. For every source image and every bounding box the clamped box has positive
  area, so the degenerate-region exit of \<open>crop_task\<close> is never taken: a crop whose source
  opens and whose output can be saved succeeds on the clamped box, whatever the box was
  (also one entirely outside the image), and a crop fails only because the source file is
  missing or because opening or saving raised.
\<close>

theorem crop_never_degenerate:
  "fst (crop_task dir wr d0 (name, src, vid, bounds)) \<noteq> Inl DegenerateRegion \<and>
   (d0 src = Some (ImageFile im) \<and>
    wr (path_join dir (name @ ''_variant'' @ str_nat vid @ ''.png'')) \<longrightarrow>
      (\<exists>a b c d. clamp_box (width im) (height im) bounds = (a, b, c, d) \<and> a < c \<and> b < d \<and>
         fst (crop_task dir wr d0 (name, src, vid, bounds)) =
           Inr (name, vid, path_join dir (name @ ''_variant'' @ str_nat vid @ ''.png''),
                (a, b, c, d)))) \<and>
   (d0 src = None \<longrightarrow>
      crop_task dir wr d0 (name, src, vid, bounds) = (Inl MissingSourceFile, d0))"
proof (intro conjI impI)
  show "fst (crop_task dir wr d0 (name, src, vid, bounds)) \<noteq> Inl DegenerateRegion"
  proof (cases "d0 src")
    case None
    then show ?thesis by (simp add: crop_task_def)
  next
    case (Some f)
    show ?thesis
    proof (cases f)
      case NotAnImage
      with Some show ?thesis by (simp add: crop_task_def)
    next
      case (ImageFile im')
      obtain a b c d where cb: "clamp_box (width im') (height im') bounds = (a, b, c, d)"
        by (cases "clamp_box (width im') (height im') bounds") auto
      then have "a < c \<and> b < d" by (rule clamp_box_positive)
      with Some ImageFile cb show ?thesis
        by (simp add: crop_task_def Let_def)
    qed
  qed
next
  assume h: "d0 src = Some (ImageFile im) \<and>
    wr (path_join dir (name @ ''_variant'' @ str_nat vid @ ''.png''))"
  obtain a b c d where cb: "clamp_box (width im) (height im) bounds = (a, b, c, d)"
    by (cases "clamp_box (width im) (height im) bounds") auto
  then have pos: "a < c \<and> b < d" by (rule clamp_box_positive)
  from h have h1: "d0 src = Some (ImageFile im)"
    and h2: "wr (path_join dir (name @ ''_variant'' @ str_nat vid @ ''.png''))" by simp_all
  from h1 cb refl h2 have "crop_task dir wr d0 (name, src, vid, bounds) =
      (Inr (name, vid, path_join dir (name @ ''_variant'' @ str_nat vid @ ''.png''), (a, b, c, d)),
       d0(path_join dir (name @ ''_variant'' @ str_nat vid @ ''.png'') \<mapsto>
            ImageFile (pil_crop im (a, b, c, d))))"
    by (rule crop_task_success)
  with cb pos show "\<exists>a b c d. clamp_box (width im) (height im) bounds = (a, b, c, d) \<and>
      a < c \<and> b < d \<and>
      fst (crop_task dir wr d0 (name, src, vid, bounds)) =
        Inr (name, vid, path_join dir (name @ ''_variant'' @ str_nat vid @ ''.png''), (a, b, c, d))"
    by auto
next
  assume "d0 src = None"
  then show "crop_task dir wr d0 (name, src, vid, bounds) = (Inl MissingSourceFile, d0)"
    by (simp add: crop_task_def)
qed

theorem crop_never_degenerate_witness:
  "disk8 ''tex.png'' = Some (ImageFile img8) \<and>
   clamp_box (width img8) (height img8) (100, 100, 110, 110) = (7, 7, 8, 8) \<and>
   fst (crop_task ''out'' (\<lambda>p. True) disk8 (''tex'', ''tex.png'', 1, (100, 100, 110, 110))) =
     Inr (''tex'', 1, ''out/tex_variant1.png'', (7, 7, 8, 8)) \<and>
   disk8 ''gone.png'' = None \<and>
   crop_task ''out'' (\<lambda>p. True) disk8 (''tex'', ''gone.png'', 1, (100, 100, 110, 110)) =
     (Inl MissingSourceFile, disk8)"
proof -
  have d: "disk8 ''tex.png'' = Some (ImageFile img8)" "disk8 ''gone.png'' = None"
    by (simp_all add: disk8_def)
  have c: "clamp_box (width img8) (height img8) (100, 100, 110, 110) = (7, 7, 8, 8)"
    by (simp add: clamp_box_def img8_def)
  have o: "path_join ''out'' (''tex'' @ ''_variant'' @ str_nat 1 @ ''.png'') = ''out/tex_variant1.png''"
    by (simp add: path_join_def str_nat_digit digit_char_def)
  from crop_never_degenerate [of "''out''" "\<lambda>p. True" disk8 "''tex''" "''tex.png''" 1
      "(100, 100, 110, 110)" img8]
  have 1: "fst (crop_task ''out'' (\<lambda>p. True) disk8 (''tex'', ''tex.png'', 1, (100, 100, 110, 110))) =
     Inr (''tex'', 1, ''out/tex_variant1.png'', (7, 7, 8, 8))"
    using d c o by auto
  from crop_never_degenerate [of "''out''" "\<lambda>p. True" disk8 "''tex''" "''gone.png''" 1
      "(100, 100, 110, 110)" img8]
  have 2: "crop_task ''out'' (\<lambda>p. True) disk8 (''tex'', ''gone.png'', 1, (100, 100, 110, 110)) =
     (Inl MissingSourceFile, disk8)"
    using d by simp
  from d c 1 2 show ?thesis by simp
qed

section \<open>Properties of the coordinate conversion\<close>







section \<open>Properties of the variant deduplication\<close>

lemma get_list_setdefault: "get_list (setdefault d k []) k = get_list d k"
  by (cases "map_of d k") (simp_all add: setdefault_def get_list_def map_add_def)

lemma setdefault_present: "map_of d k \<noteq> None \<Longrightarrow> setdefault d k v = d"
  by (simp add: setdefault_def)

lemma get_list_update_same: "get_list (AList.update k v d) k = v"
  by (simp add: get_list_def update_conv')

lemma get_list_update_other: "n \<noteq> k \<Longrightarrow> get_list (AList.update k v d) n = get_list d n"
  by (simp add: get_list_def update_conv')

lemma get_list_setdefault_other: "get_list (setdefault d k []) n = get_list d n"
  by (cases "map_of d k"; cases "map_of d n")
    (simp_all add: setdefault_def get_list_def map_add_def)

lemma get_list_nonempty_key: "x \<in> set (get_list d k) \<Longrightarrow> map_of d k \<noteq> None"
  by (cases "map_of d k") (simp_all add: get_list_def)

lemma list_index_mem:
  "x \<in> set xs \<Longrightarrow> \<exists>i. list_index xs x = Some i \<and> i < length xs \<and> xs ! i = x \<and> x \<notin> set (take i xs)"
proof (induction xs)
  case Nil
  then show ?case by simp
next
  case (Cons y ys)
  show ?case
  proof (cases "y = x")
    case True
    then show ?thesis by simp
  next
    case False
    with Cons.prems have "x \<in> set ys" by simp
    from Cons.IH [OF this] obtain i where
      "list_index ys x = Some i" "i < length ys" "ys ! i = x" "x \<notin> set (take i ys)" by blast
    with False have "list_index (y # ys) x = Some (Suc i) \<and> Suc i < length (y # ys) \<and>
        (y # ys) ! Suc i = x \<and> x \<notin> set (take (Suc i) (y # ys))"
      by simp
    then show ?thesis by blast
  qed
qed

lemma list_index_append_new: "x \<notin> set xs \<Longrightarrow> list_index (xs @ [x]) x = Some (length xs)"
  by (induction xs) auto

lemma dedup_seen:
  assumes "bounds \<in> set (get_list tbl name)"
  shows "\<exists>i. dedup tbl name bounds = (tbl, Some (i + 1)) \<and> i < length (get_list tbl name) \<and>
           get_list tbl name ! i = bounds \<and> bounds \<notin> set (take i (get_list tbl name))"
proof -
  have k: "setdefault tbl name [] = tbl"
    using assms by (intro setdefault_present get_list_nonempty_key)
  from list_index_mem [OF assms] obtain i where
    i: "list_index (get_list tbl name) bounds = Some i" "i < length (get_list tbl name)"
      "get_list tbl name ! i = bounds" "bounds \<notin> set (take i (get_list tbl name))" by blast
  have "dedup tbl name bounds = (tbl, Some (i + 1))"
    using assms i(1) by (simp add: dedup_def k Let_def)
  with i show ?thesis by blast
qed

lemma dedup_new:
  assumes "bounds \<notin> set (get_list tbl name)"
  shows "\<exists>tbl'. dedup tbl name bounds = (tbl', Some (length (get_list tbl name) + 1)) \<and>
           get_list tbl' name = get_list tbl name @ [bounds] \<and>
           (\<forall>n. n \<noteq> name \<longrightarrow> get_list tbl' n = get_list tbl n)"
proof -
  let ?u1 = "setdefault tbl name []"
  let ?u2 = "AList.update name (get_list tbl name @ [bounds]) ?u1"
  have "dedup tbl name bounds = (?u2, Some (length (get_list tbl name) + 1))"
    using assms
    by (simp add: dedup_def Let_def get_list_setdefault get_list_update_same list_index_append_new)
  moreover have "get_list ?u2 name = get_list tbl name @ [bounds]"
    by (simp add: get_list_update_same)
  moreover have "\<forall>n. n \<noteq> name \<longrightarrow> get_list ?u2 n = get_list tbl n"
    by (simp add: get_list_update_other get_list_setdefault_other)
  ultimately show ?thesis by blast
qed


lemma dedup_step:
  "get_list (fst (dedup tbl name b)) name =
     (if b \<in> set (get_list tbl name) then get_list tbl name else get_list tbl name @ [b])"
proof (cases "b \<in> set (get_list tbl name)")
  case True
  from dedup_seen [OF this] show ?thesis using True by auto
next
  case False
  from dedup_new [OF this] show ?thesis using False by auto
qed

lemma dedup_fold:
  "get_list (fold (\<lambda>b u. fst (dedup u name b)) bs tbl) name =
     fold (\<lambda>b u. if b \<in> set u then u else u @ [b]) bs (get_list tbl name)"
proof (induction bs arbitrary: tbl)
  case Nil
  show ?case by simp
next
  case (Cons b bs)
  show ?case
    using Cons.IH [of "fst (dedup tbl name b)"] by (simp add: dedup_step)
qed

lemma dedup_loop_boxes:
  assumes "\<forall>b. (seen b = None) = (b \<notin> fst ` set u)"
  shows "map fst (dedup_loop lst u seen) =
           fold (\<lambda>b u. if b \<in> set u then u else u @ [b]) (map fst lst) (map fst u)"
  using assms
proof (induction lst arbitrary: u seen)
  case Nil
  show ?case by simp
next
  case (Cons e lst)
  obtain bounds path v where e: "e = (bounds, path, v)" by (cases e) auto
  let ?F = "\<lambda>b u. if b \<in> set u then u else u @ [b]"
  show ?case
  proof (cases "seen bounds = None")
    case True
    then have new: "bounds \<notin> fst ` set u" using Cons.prems by simp
    define u' where "u' = u @ [(bounds, path, length u + 1)]"
    define seen' where "seen' = seen(bounds \<mapsto> length u + 1)"
    have inv: "\<forall>b. (seen' b = None) = (b \<notin> fst ` set u')"
      using Cons.prems by (auto simp add: u'_def seen'_def)
    have step: "dedup_loop (e # lst) u seen = dedup_loop lst u' seen'"
      using True by (simp add: e u'_def seen'_def)
    have m: "map fst u' = map fst u @ [bounds]"
      by (simp add: u'_def)
    have f: "fold ?F (map fst (e # lst)) (map fst u) = fold ?F (map fst lst) (map fst u')"
      using new by (simp add: e m)
    show ?thesis
      unfolding step f by (rule Cons.IH [OF inv])
  next
    case False
    then have old: "bounds \<in> fst ` set u" using Cons.prems by simp
    have step: "dedup_loop (e # lst) u seen = dedup_loop lst u seen"
      using False by (auto simp add: e)
    have f: "fold ?F (map fst (e # lst)) (map fst u) = fold ?F (map fst lst) (map fst u)"
      using old by (simp add: e)
    show ?thesis
      unfolding step f by (rule Cons.IH [OF Cons.prems])
  qed
qed

lemma dedup_loop_ids:
  assumes "map (\<lambda>e. snd (snd e)) u = [1..<length u + 1]"
  shows "map (\<lambda>e. snd (snd e)) (dedup_loop lst u seen) = [1..<length (dedup_loop lst u seen) + 1]"
  using assms
proof (induction lst arbitrary: u seen)
  case Nil
  then show ?case by simp
next
  case (Cons e lst)
  obtain bounds path v where e: "e = (bounds, path, v)" by (cases e) auto
  show ?case
  proof (cases "seen bounds = None")
    case True
    define u' where "u' = u @ [(bounds, path, length u + 1)]"
    define seen' where "seen' = seen(bounds \<mapsto> length u + 1)"
    have inv: "map (\<lambda>e. snd (snd e)) u' = [1..<length u' + 1]"
      using Cons.prems by (simp add: u'_def)
    have step: "dedup_loop (e # lst) u seen = dedup_loop lst u' seen'"
      using True by (simp add: e u'_def seen'_def)
    show ?thesis
      unfolding step by (rule Cons.IH [OF inv])
  next
    case False
    have step: "dedup_loop (e # lst) u seen = dedup_loop lst u seen"
      using False by (auto simp add: e)
    show ?thesis
      unfolding step by (rule Cons.IH [OF Cons.prems])
  qed
qed

text \<open>
  C1: variant deduplication. Within one image, asking for a box already in the image's
  list answers the 1-based position of its first occurrence and leaves the table as it
  is; asking for a new box appends it and answers the new length, leaving every other
  image's list alone. The batch deduplication of export\_uv\_infoV1.py keeps the same
  boxes in the same first-seen order, numbered from 1.
\<close>

theorem dedup_first_seen:
  "(bounds \<in> set (get_list tbl name) \<longrightarrow>
      (\<exists>i. dedup tbl name bounds = (tbl, Some (i + 1)) \<and> i < length (get_list tbl name) \<and>
         get_list tbl name ! i = bounds \<and> bounds \<notin> set (take i (get_list tbl name)))) \<and>
   (bounds \<notin> set (get_list tbl name) \<longrightarrow>
      (\<exists>tbl'. dedup tbl name bounds = (tbl', Some (length (get_list tbl name) + 1)) \<and>
         get_list tbl' name = get_list tbl name @ [bounds] \<and>
         (\<forall>n. n \<noteq> name \<longrightarrow> get_list tbl' n = get_list tbl n))) \<and>
   map fst (dedup_loop lst [] Map.empty) =
     get_list (fold (\<lambda>b u. fst (dedup u name b)) (map fst lst) []) name \<and>
   map (\<lambda>e. snd (snd e)) (dedup_loop lst [] Map.empty) =
     [1..<length (dedup_loop lst [] Map.empty) + 1]"
proof -
  have 1: "map fst (dedup_loop lst [] Map.empty) =
     get_list (fold (\<lambda>b u. fst (dedup u name b)) (map fst lst) []) name"
  proof -
    have e: "get_list ([] :: (string \<times> box list) list) name = []"
      by (simp add: get_list_def)
    have "map fst (dedup_loop lst [] Map.empty) =
        fold (\<lambda>b u. if b \<in> set u then u else u @ [b]) (map fst lst) []"
      using dedup_loop_boxes [of Map.empty "[]" lst] by simp
    then show ?thesis
      unfolding dedup_fold e by simp
  qed
  have 2: "map (\<lambda>e. snd (snd e)) (dedup_loop lst [] Map.empty) =
     [1..<length (dedup_loop lst [] Map.empty) + 1]"
    by (rule dedup_loop_ids) simp
  from dedup_seen dedup_new 1 2 show ?thesis by blast
qed

theorem dedup_first_seen_witness:
  "((0, 0, 1, 1) :: box) \<in> set (get_list [(''a.png'', [(0, 0, 1, 1), (0, 0, 2, 2)])] ''a.png'') \<and>
   dedup [(''a.png'', [(0, 0, 1, 1), (0, 0, 2, 2)])] ''a.png'' (0, 0, 1, 1) =
     ([(''a.png'', [(0, 0, 1, 1), (0, 0, 2, 2)])], Some 1) \<and>
   ((5, 5, 6, 6) :: box) \<notin> set (get_list [(''a.png'', [(0, 0, 1, 1), (0, 0, 2, 2)])] ''a.png'') \<and>
   snd (dedup [(''a.png'', [(0, 0, 1, 1), (0, 0, 2, 2)])] ''a.png'' (5, 5, 6, 6)) = Some 3"
proof -
  let ?t = "[(''a.png'', [(0, 0, 1, 1), (0, 0, 2, 2)])] :: (string \<times> box list) list"
  have g: "get_list ?t ''a.png'' = [(0, 0, 1, 1), (0, 0, 2, 2)]"
    by (simp add: get_list_def)
  have a: "dedup ?t ''a.png'' (0, 0, 1, 1) = (?t, Some 1)"
    using dedup_first_seen [of "(0, 0, 1, 1)" ?t "''a.png''" "[]"] g
    by (auto simp add: less_Suc_eq)
  have b: "snd (dedup ?t ''a.png'' (5, 5, 6, 6)) = Some 3"
    using dedup_first_seen [of "(5, 5, 6, 6)" ?t "''a.png''" "[]"] g by auto
  from g a b show ?thesis by simp
qed

section \<open>Properties of the listings\<close>

lemma metadata_variants_maps:
  "metadata_variants name vs (c, n, k) =
     (c @ map (\<lambda>(b, p, v). coord_line_V1 b name v) vs,
      n @ map (\<lambda>(b, p, v). name_line name v) vs,
      k @ map (\<lambda>(b, p, v). crop_line name) vs)"
  by (induction vs arbitrary: c n k) auto

lemma metadata_lines_maps:
  "metadata_lines gv (c, n, k) =
     (c @ map (\<lambda>(name, b, v). coord_line_V1 b name v) (units_V1 gv),
      n @ map (\<lambda>(name, b, v). name_line name v) (units_V1 gv),
      k @ map (\<lambda>(name, b, v). crop_line name) (units_V1 gv))"
proof (induction gv arbitrary: c n k)
  case Nil
  show ?case by (simp add: units_V1_def)
next
  case (Cons e gv)
  obtain name vs where e: "e = (name, vs)" by (cases e) auto
  have u: "units_V1 ((name, vs) # gv) =
      map (\<lambda>(bounds, path, vid). (name, bounds, vid)) vs @ units_V1 gv"
    by (simp add: units_V1_def)
  show ?case
    by (simp add: e u metadata_variants_maps Cons.IH comp_def case_prod_unfold)
qed

lemma image_from_loops_nonempty: "image_from_loops mats i ls = Some im \<Longrightarrow> ls \<noteq> []"
  by (cases ls) simp_all

lemma dedup_some: "\<exists>tbl' v. dedup tbl name b = (tbl', Some v)"
proof (cases "b \<in> set (get_list tbl name)")
  case True
  from dedup_seen [OF this] show ?thesis by blast
next
  case False
  from dedup_new [OF this] show ?thesis by blast
qed

lemma bounds_v0_some: "uvs \<noteq> [] \<Longrightarrow> \<exists>b. bounds_v0 h uvs = Some b"
  by (simp add: bounds_v0_def Let_def convert_coords_def)

lemma export_face_none:
  "get_image_from_face mats f = None \<Longrightarrow> export_face abspath mats f st = Inr st"
  by (simp add: export_face_def)

lemma export_face_some:
  assumes "get_image_from_face mats f = Some img"
  shows "\<exists>bounds variant tbl'.
           export_face abspath mats f st =
             Inr (st\<lparr>
               unique := tbl',
               name_data := name_data st @ [name_line (basename (img_filepath img)) variant],
               crop_data := crop_data st @ [crop_line (basename (img_filepath img))],
               coord_data := coord_data st @ [coord_line_v0 bounds (basename (img_filepath img)) variant],
               dimensions := setdefault (dimensions st) (basename (img_filepath img)) (img_size img),
               count := AList.update (basename (img_filepath img))
                 ((case map_of (count st) (basename (img_filepath img)) of None \<Rightarrow> 0 | Some c \<Rightarrow> c) + 1)
                 (count st),
               bounds_per_image :=
                 setdefault_append (bounds_per_image st) (basename (img_filepath img))
                   (bounds, abspath (img_filepath img), variant),
               face_assignments :=
                 face_assignments st @ [(index f, basename (img_filepath img), variant, bounds)]\<rparr>)"
proof -
  have "loops f \<noteq> []"
    using assms image_from_loops_nonempty by (auto simp add: get_image_from_face_def)
  then have "uvs_px (fst (img_size img)) (snd (img_size img)) (loops f) \<noteq> []"
    by (simp add: uvs_px_def)
  from bounds_v0_some [OF this] obtain b where
    b: "bounds_v0 (snd (img_size img)) (uvs_px (fst (img_size img)) (snd (img_size img)) (loops f)) = Some b"
    by blast
  obtain tbl' v where d: "dedup (unique st) (basename (img_filepath img)) b = (tbl', Some v)"
    using dedup_some by blast
  have "export_face abspath mats f st =
             Inr (st\<lparr>
               unique := tbl',
               name_data := name_data st @ [name_line (basename (img_filepath img)) v],
               crop_data := crop_data st @ [crop_line (basename (img_filepath img))],
               coord_data := coord_data st @ [coord_line_v0 b (basename (img_filepath img)) v],
               dimensions := setdefault (dimensions st) (basename (img_filepath img)) (img_size img),
               count := AList.update (basename (img_filepath img))
                 ((case map_of (count st) (basename (img_filepath img)) of None \<Rightarrow> 0 | Some c \<Rightarrow> c) + 1)
                 (count st),
               bounds_per_image :=
                 setdefault_append (bounds_per_image st) (basename (img_filepath img))
                   (b, abspath (img_filepath img), v),
               face_assignments :=
                 face_assignments st @ [(index f, basename (img_filepath img), v, b)]\<rparr>)"
    by (simp add: export_face_def assms Let_def b d)
  then show ?thesis by blast
qed


lemma map_of_setdefault:
  "map_of (setdefault d k v) n = (if n = k \<and> map_of d k = None then Some v else map_of d n)"
  by (cases "map_of d n") (auto simp add: setdefault_def map_add_def)

lemma distinct_setdefault:
  "distinct (map fst d) \<Longrightarrow> distinct (map fst (setdefault d k v))"
  by (auto simp add: setdefault_def map_of_eq_None_iff)

lemma aligned_v0_step:
  assumes "aligned_v0 st"
  shows "aligned_v0 (st\<lparr>
               unique := tbl',
               name_data := name_data st @ [name_line name variant],
               crop_data := crop_data st @ [crop_line name],
               coord_data := coord_data st @ [coord_line_v0 bounds name variant],
               dimensions := dims, count := cnt, bounds_per_image := bpi,
               face_assignments := face_assignments st @ [(i, name, variant, bounds)]\<rparr>)"
  using assms by (simp add: aligned_v0_def)

lemma faces_of_image_snoc:
  "faces_of_image (st\<lparr>face_assignments := face_assignments st @ [(i, name, variant, bounds)]\<rparr>) n =
     faces_of_image st n + (if n = name then 1 else 0)"
  by (simp add: faces_of_image_def)

lemma counted_v0_step:
  assumes "counted_v0 st"
  shows "counted_v0 (st\<lparr>
               unique := tbl', name_data := nd, crop_data := cd, coord_data := co,
               dimensions := setdefault (dimensions st) name wh,
               count := AList.update name
                 ((case map_of (count st) name of None \<Rightarrow> 0 | Some c \<Rightarrow> c) + 1) (count st),
               bounds_per_image := bpi,
               face_assignments := face_assignments st @ [(i, name, variant, bounds)]\<rparr>)"
proof -
  from assms have
    1: "\<And>n. (case map_of (count st) n of None \<Rightarrow> 0 | Some c \<Rightarrow> c) = faces_of_image st n" and
    2: "\<And>n. (map_of (dimensions st) n = None) = (map_of (count st) n = None)" and
    3: "distinct (map fst (dimensions st))"
    by (simp_all add: counted_v0_def)
  show ?thesis
    unfolding counted_v0_def
  proof (intro conjI allI)
    fix n
    show "(case map_of (count (st\<lparr>
               unique := tbl', name_data := nd, crop_data := cd, coord_data := co,
               dimensions := setdefault (dimensions st) name wh,
               count := AList.update name
                 ((case map_of (count st) name of None \<Rightarrow> 0 | Some c \<Rightarrow> c) + 1) (count st),
               bounds_per_image := bpi,
               face_assignments := face_assignments st @ [(i, name, variant, bounds)]\<rparr>)) n of
             None \<Rightarrow> 0 | Some c \<Rightarrow> c) =
          faces_of_image (st\<lparr>
               unique := tbl', name_data := nd, crop_data := cd, coord_data := co,
               dimensions := setdefault (dimensions st) name wh,
               count := AList.update name
                 ((case map_of (count st) name of None \<Rightarrow> 0 | Some c \<Rightarrow> c) + 1) (count st),
               bounds_per_image := bpi,
               face_assignments := face_assignments st @ [(i, name, variant, bounds)]\<rparr>) n"
      using 1 [of n] by (auto simp add: faces_of_image_def update_conv')
  next
    fix n
    show "(map_of (dimensions (st\<lparr>
               unique := tbl', name_data := nd, crop_data := cd, coord_data := co,
               dimensions := setdefault (dimensions st) name wh,
               count := AList.update name
                 ((case map_of (count st) name of None \<Rightarrow> 0 | Some c \<Rightarrow> c) + 1) (count st),
               bounds_per_image := bpi,
               face_assignments := face_assignments st @ [(i, name, variant, bounds)]\<rparr>)) n = None) =
          (map_of (count (st\<lparr>
               unique := tbl', name_data := nd, crop_data := cd, coord_data := co,
               dimensions := setdefault (dimensions st) name wh,
               count := AList.update name
                 ((case map_of (count st) name of None \<Rightarrow> 0 | Some c \<Rightarrow> c) + 1) (count st),
               bounds_per_image := bpi,
               face_assignments := face_assignments st @ [(i, name, variant, bounds)]\<rparr>)) n = None)"
      using 2 [of n] by (simp add: update_conv' map_of_setdefault)
  next
    show "distinct (map fst (dimensions (st\<lparr>
               unique := tbl', name_data := nd, crop_data := cd, coord_data := co,
               dimensions := setdefault (dimensions st) name wh,
               count := AList.update name
                 ((case map_of (count st) name of None \<Rightarrow> 0 | Some c \<Rightarrow> c) + 1) (count st),
               bounds_per_image := bpi,
               face_assignments := face_assignments st @ [(i, name, variant, bounds)]\<rparr>)))"
      using distinct_setdefault [OF 3] by simp
  qed
qed

lemma export_face_step:
  "\<exists>st'. export_face abspath mats f st = Inr st' \<and>
      (aligned_v0 st \<longrightarrow> aligned_v0 st') \<and> (counted_v0 st \<longrightarrow> counted_v0 st') \<and>
      map fst (face_assignments st') =
        map fst (face_assignments st) @ map index (filter (\<lambda>f. get_image_from_face mats f \<noteq> None) [f])"
proof (cases "get_image_from_face mats f")
  case None
  then show ?thesis by (simp add: export_face_none)
next
  case (Some img)
  from export_face_some [OF Some, of abspath st] obtain bounds variant tbl' st1 where
    e: "export_face abspath mats f st = Inr st1" and
    s: "st1 = st\<lparr>
               unique := tbl',
               name_data := name_data st @ [name_line (basename (img_filepath img)) variant],
               crop_data := crop_data st @ [crop_line (basename (img_filepath img))],
               coord_data := coord_data st @ [coord_line_v0 bounds (basename (img_filepath img)) variant],
               dimensions := setdefault (dimensions st) (basename (img_filepath img)) (img_size img),
               count := AList.update (basename (img_filepath img))
                 ((case map_of (count st) (basename (img_filepath img)) of None \<Rightarrow> 0 | Some c \<Rightarrow> c) + 1)
                 (count st),
               bounds_per_image :=
                 setdefault_append (bounds_per_image st) (basename (img_filepath img))
                   (bounds, abspath (img_filepath img), variant),
               face_assignments :=
                 face_assignments st @ [(index f, basename (img_filepath img), variant, bounds)]\<rparr>"
    by blast
  have a: "aligned_v0 st \<Longrightarrow> aligned_v0 st1"
    unfolding s by (rule aligned_v0_step)
  have c: "counted_v0 st \<Longrightarrow> counted_v0 st1"
    unfolding s by (rule counted_v0_step)
  have fa: "map fst (face_assignments st1) = map fst (face_assignments st) @ [index f]"
    by (simp add: s)
  show ?thesis
    using e a c fa Some by auto
qed

lemma export_faces_inv:
  "\<exists>st'. export_faces abspath mats fs st = Inr st' \<and>
      (aligned_v0 st \<longrightarrow> aligned_v0 st') \<and> (counted_v0 st \<longrightarrow> counted_v0 st') \<and>
      map fst (face_assignments st') =
        map fst (face_assignments st) @ map index (filter (\<lambda>f. get_image_from_face mats f \<noteq> None) fs)"
proof (induction fs arbitrary: st)
  case Nil
  show ?case by simp
next
  case (Cons f fs)
  from export_face_step [of abspath mats f st] obtain st1 where
    1: "export_face abspath mats f st = Inr st1"
      "aligned_v0 st \<longrightarrow> aligned_v0 st1" "counted_v0 st \<longrightarrow> counted_v0 st1"
      "map fst (face_assignments st1) =
        map fst (face_assignments st) @ map index (filter (\<lambda>f. get_image_from_face mats f \<noteq> None) [f])"
    by blast
  from Cons.IH [of st1] obtain st2 where
    2: "export_faces abspath mats fs st1 = Inr st2"
      "aligned_v0 st1 \<longrightarrow> aligned_v0 st2" "counted_v0 st1 \<longrightarrow> counted_v0 st2"
      "map fst (face_assignments st2) =
        map fst (face_assignments st1) @ map index (filter (\<lambda>f. get_image_from_face mats f \<noteq> None) fs)"
    by blast
  have "export_faces abspath mats (f # fs) st = Inr st2"
    by (simp add: 1(1) 2(1))
  moreover have "map fst (face_assignments st2) =
        map fst (face_assignments st) @
        map index (filter (\<lambda>f. get_image_from_face mats f \<noteq> None) (f # fs))"
    unfolding 2(4) 1(4) by simp
  ultimately show ?case using 1(2,3) 2(2,3) by blast
qed

lemma init_state_inv: "aligned_v0 init_state \<and> counted_v0 init_state"
  by (simp add: aligned_v0_def counted_v0_def init_state_def faces_of_image_def)

lemma size_lines_counted:
  assumes "\<forall>name \<in> fst ` set ds. map_of cnt name \<noteq> None"
  shows "size_lines ds cnt =
           Inr (concat (map (\<lambda>(name, w, h).
                  concat (replicate (case map_of cnt name of None \<Rightarrow> 0 | Some c \<Rightarrow> c)
                    (size_line name w h))) ds))"
  using assms
proof (induction ds)
  case Nil
  show ?case by simp
next
  case (Cons d ds)
  obtain name w h where d: "d = (name, w, h)" by (cases d) auto
  obtain c where c: "map_of cnt name = Some c" using Cons.prems by (auto simp add: d)
  have "\<forall>name \<in> fst ` set ds. map_of cnt name \<noteq> None" using Cons.prems by simp
  from Cons.IH [OF this] show ?case by (simp add: d c)
qed


lemma counted_v0_keys:
  assumes "counted_v0 st"
  shows "\<forall>name \<in> fst ` set (dimensions st). map_of (count st) name \<noteq> None"
proof
  fix name assume "name \<in> fst ` set (dimensions st)"
  then have d: "map_of (dimensions st) name \<noteq> None" by (simp add: map_of_eq_None_iff)
  have "(map_of (dimensions st) name = None) = (map_of (count st) name = None)"
    using assms unfolding counted_v0_def by blast
  with d show "map_of (count st) name \<noteq> None" by simp
qed

lemma size_lines_v0:
  assumes "counted_v0 st"
  shows "size_lines (dimensions st) (count st) =
           Inr (concat (map (\<lambda>(name, w, h).
                  concat (replicate (faces_of_image st name) (size_line name w h))) (dimensions st)))"
proof -
  have "\<And>name. (case map_of (count st) name of None \<Rightarrow> 0 | Some c \<Rightarrow> c) = faces_of_image st name"
    using assms by (simp add: counted_v0_def)
  then show ?thesis
    using size_lines_counted [OF counted_v0_keys [OF assms]] by simp
qed

text \<open>
  C10: the three listings are aligned. In export\_uv\_info.py the run over the faces always
  completes, and the coordinates, variant-names and source-names listings are each the
  image, entry by entry, of the one list of face assignments (one per face that resolves
  an image), so they have the same length and entry \<open>i\<close> of each describes the same face;
  these are the lists written, joined by newlines, to the three files. In
  export\_uv\_infoV1.py the three lists are each the image of the one list of variants.
\<close>

theorem listings_aligned:
  "(\<exists>st sizes.
      export_faces abspath mats fs init_state = Inr st \<and>
      coord_data st =
        map (\<lambda>(i, name, variant, bounds). coord_line_v0 bounds name variant) (face_assignments st) \<and>
      name_data st = map (\<lambda>(i, name, variant, bounds). name_line name variant) (face_assignments st) \<and>
      crop_data st = map (\<lambda>(i, name, variant, bounds). crop_line name) (face_assignments st) \<and>
      map fst (face_assignments st) =
        map index (filter (\<lambda>f. get_image_from_face mats f \<noteq> None) fs) \<and>
      length (coord_data st) = length (name_data st) \<and>
      length (name_data st) = length (crop_data st) \<and>
      write_listings_v0 base st =
        Inr [path_join base ''uv_coordinates.txt'' \<mapsto> join newline (coord_data st),
             path_join base ''image_names.txt'' \<mapsto> join newline (name_data st),
             path_join base ''image_names_to_crop.txt'' \<mapsto> join newline (crop_data st),
             path_join base ''image_sizes.txt'' \<mapsto> sizes]) \<and>
   metadata_lines variants ([], [], []) =
     (map (\<lambda>(name, bounds, vid). coord_line_V1 bounds name vid) (units_V1 variants),
      map (\<lambda>(name, bounds, vid). name_line name vid) (units_V1 variants),
      map (\<lambda>(name, bounds, vid). crop_line name) (units_V1 variants)) \<and>
   write_listings_V1 directory variants gsizes =
     [path_join directory ''uv_coordinates.txt'' \<mapsto>
        join newline (map (\<lambda>(name, bounds, vid). coord_line_V1 bounds name vid) (units_V1 variants)),
      path_join directory ''image_names.txt'' \<mapsto>
        join newline (map (\<lambda>(name, bounds, vid). name_line name vid) (units_V1 variants)),
      path_join directory ''image_names_to_crop.txt'' \<mapsto>
        join newline (map (\<lambda>(name, bounds, vid). crop_line name) (units_V1 variants)),
      path_join directory ''image_sizes.txt'' \<mapsto> sizes_V1 gsizes]"
proof -
  from export_faces_inv [of abspath mats fs init_state] init_state_inv obtain st where
    e: "export_faces abspath mats fs init_state = Inr st" and
    a: "aligned_v0 st" and c: "counted_v0 st" and
    f: "map fst (face_assignments st) =
        map fst (face_assignments init_state) @
        map index (filter (\<lambda>f. get_image_from_face mats f \<noteq> None) fs)"
    by blast
  have f': "map fst (face_assignments st) =
        map index (filter (\<lambda>f. get_image_from_face mats f \<noteq> None) fs)"
    using f by (simp add: init_state_def)
  from a have a1: "coord_data st =
        map (\<lambda>(i, name, variant, bounds). coord_line_v0 bounds name variant) (face_assignments st)"
    and a2: "name_data st =
        map (\<lambda>(i, name, variant, bounds). name_line name variant) (face_assignments st)"
    and a3: "crop_data st = map (\<lambda>(i, name, variant, bounds). crop_line name) (face_assignments st)"
    by (simp_all add: aligned_v0_def)
  have l1: "length (coord_data st) = length (name_data st)"
    by (simp add: a1 a2)
  have l2: "length (name_data st) = length (crop_data st)"
    by (simp add: a2 a3)
  obtain sizes where sz: "size_lines (dimensions st) (count st) = Inr sizes"
    using size_lines_v0 [OF c] by blast
  have w: "write_listings_v0 base st =
        Inr [path_join base ''uv_coordinates.txt'' \<mapsto> join newline (coord_data st),
             path_join base ''image_names.txt'' \<mapsto> join newline (name_data st),
             path_join base ''image_names_to_crop.txt'' \<mapsto> join newline (crop_data st),
             path_join base ''image_sizes.txt'' \<mapsto> sizes]"
    by (simp add: write_listings_v0_def sz)
  have v0: "\<exists>st sizes.
      export_faces abspath mats fs init_state = Inr st \<and>
      coord_data st =
        map (\<lambda>(i, name, variant, bounds). coord_line_v0 bounds name variant) (face_assignments st) \<and>
      name_data st = map (\<lambda>(i, name, variant, bounds). name_line name variant) (face_assignments st) \<and>
      crop_data st = map (\<lambda>(i, name, variant, bounds). crop_line name) (face_assignments st) \<and>
      map fst (face_assignments st) =
        map index (filter (\<lambda>f. get_image_from_face mats f \<noteq> None) fs) \<and>
      length (coord_data st) = length (name_data st) \<and>
      length (name_data st) = length (crop_data st) \<and>
      write_listings_v0 base st =
        Inr [path_join base ''uv_coordinates.txt'' \<mapsto> join newline (coord_data st),
             path_join base ''image_names.txt'' \<mapsto> join newline (name_data st),
             path_join base ''image_names_to_crop.txt'' \<mapsto> join newline (crop_data st),
             path_join base ''image_sizes.txt'' \<mapsto> sizes]"
    using e a1 a2 a3 f' l1 l2 w by blast
  have m: "metadata_lines variants ([], [], []) =
     (map (\<lambda>(name, bounds, vid). coord_line_V1 bounds name vid) (units_V1 variants),
      map (\<lambda>(name, bounds, vid). name_line name vid) (units_V1 variants),
      map (\<lambda>(name, bounds, vid). crop_line name) (units_V1 variants))"
    using metadata_lines_maps [of variants "[]" "[]" "[]"] by simp
  have w1: "write_listings_V1 directory variants gsizes =
     [path_join directory ''uv_coordinates.txt'' \<mapsto>
        join newline (map (\<lambda>(name, bounds, vid). coord_line_V1 bounds name vid) (units_V1 variants)),
      path_join directory ''image_names.txt'' \<mapsto>
        join newline (map (\<lambda>(name, bounds, vid). name_line name vid) (units_V1 variants)),
      path_join directory ''image_names_to_crop.txt'' \<mapsto>
        join newline (map (\<lambda>(name, bounds, vid). crop_line name) (units_V1 variants)),
      path_join directory ''image_sizes.txt'' \<mapsto> sizes_V1 gsizes]"
    unfolding write_listings_V1_def m by simp
  from v0 m w1 show ?thesis by blast
qed

section \<open>What the metadata files list\<close>












lemma update_keys_same:
  "map fst xs = map fst ys \<Longrightarrow> map fst (AList.update k v xs) = map fst (AList.update k w ys)"
  by (simp add: update_keys)











section \<open>The image of an island\<close>
















section \<open>The batch keeps no account of its assets\<close>













section \<open>Faces whose crop is missing\<close>












end
